theory Spec2Isabelle
  imports Main "HOL-Library.Char_ord" "HOL-Library.List_Lexorder"
begin

section \<open>Python values used by repo\_operations.py\<close>

text \<open>
  A Python \<open>set\<close> is modelled as a duplicate-free list: \<open>s.add(x)\<close> appends \<open>x\<close>
  unless it is already a member, and iterating the set walks the list. The order of
  the list stands for the (unspecified, but fixed) iteration order of the set; every
  statement about the content of a set is made about \<open>set xs\<close>.
\<close>

type_synonym 'a pyset = "'a list"

definition set_add :: "'a pyset \<Rightarrow> 'a \<Rightarrow> 'a pyset" where
  "set_add s x = (if x \<in> set s then s else s @ [x])"

text \<open>\<open>s |= t\<close>: every element of \<open>t\<close> is added to \<open>s\<close>.\<close>

definition set_update :: "'a pyset \<Rightarrow> 'a list \<Rightarrow> 'a pyset" where
  "set_update s t = foldl set_add s t"

text \<open>\<open>s -= t\<close>.\<close>

definition set_difference_update :: "'a pyset \<Rightarrow> 'a pyset \<Rightarrow> 'a pyset" where
  "set_difference_update s t = filter (\<lambda>x. x \<notin> set t) s"

text \<open>\<open>set(xs)\<close> and a set comprehension: the elements are added one by one.\<close>

definition set_of_list :: "'a list \<Rightarrow> 'a pyset" where
  "set_of_list xs = foldl set_add [] xs"

subsection \<open>Strings\<close>

text \<open>
  A \<open>str\<close> is a \<open>string\<close>; a character stands for its code point (below 256).
  \<open>isspace\<close> is \<open>str.isspace\<close> on these code points, the characters that
  \<open>str.strip()\<close> removes.
\<close>

definition isspace :: "char \<Rightarrow> bool" where
  "isspace c = (of_char c \<in> {9::nat, 10, 11, 12, 13, 28, 29, 30, 31, 32, 133, 160})"

definition strip :: "string \<Rightarrow> string" where
  "strip s = rev (dropWhile isspace (rev (dropWhile isspace s)))"

text \<open>\<open>s.split(sep)\<close> for a separator of one character: never the empty list.\<close>

fun split_chr :: "char \<Rightarrow> string \<Rightarrow> string list" where
  "split_chr sep [] = [[]]"
| "split_chr sep (c # cs) =
     (if c = sep then [] # split_chr sep cs
      else (case split_chr sep cs of [] \<Rightarrow> [[c]] | l # ls \<Rightarrow> (c # l) # ls))"

text \<open>\<open>s.find(c)\<close> for one character: the first index, or \<open>-1\<close>.\<close>

definition find_chr :: "string \<Rightarrow> char \<Rightarrow> int" where
  "find_chr s c = (if c \<in> set s then int (length (takeWhile (\<lambda>x. x \<noteq> c) s)) else - 1)"

definition startswith :: "string \<Rightarrow> string \<Rightarrow> bool" where
  "startswith s p = (take (length p) s = p)"

text \<open>
  \<open>s.replace(old, new)\<close>: every non-overlapping occurrence of \<open>old\<close>, from the
  left. With an empty \<open>old\<close> Python puts \<open>new\<close> before every character and at the end.
\<close>

function replace :: "string \<Rightarrow> string \<Rightarrow> string \<Rightarrow> string" where
  "replace s old new =
     (if old = [] then new @ concat (map (\<lambda>c. c # new) s)
      else if s = [] then []
      else if startswith s old then new @ replace (drop (length old) s) old new
      else hd s # replace (tl s) old new)"
  by pat_completeness auto
termination
  by (relation "measure (\<lambda>(s, old, new). length s)") auto

declare replace.simps [simp del]

subsection \<open>The name rule\<close>

text \<open>
  \<open>\w\<close> of the \<open>re\<close> module on a \<open>str\<close> pattern: the ASCII letters, digits and
  the underscore, and the alphanumeric characters of Unicode beyond ASCII. The table
  of the latter belongs to the interpreter; it is the parameter \<open>uw\<close>.
\<close>

definition is_word :: "(char \<Rightarrow> bool) \<Rightarrow> char \<Rightarrow> bool" where
  "is_word uw c =
     (let n = (of_char c :: nat) in
      (48 \<le> n \<and> n \<le> 57) \<or> (65 \<le> n \<and> n \<le> 90) \<or> (97 \<le> n \<and> n \<le> 122) \<or> n = 95
      \<or> (128 \<le> n \<and> uw c))"

text \<open>
  \<open>re.compile(r"\W+").search(name)\<close>: the span \<open>(start, end)\<close> of the leftmost,
  longest run of non-word characters, or \<open>None\<close>.
\<close>

definition search_nonword :: "(char \<Rightarrow> bool) \<Rightarrow> string \<Rightarrow> (nat \<times> nat) option" where
  "search_nonword uw s =
     (let pre = takeWhile (is_word uw) s; rest = dropWhile (is_word uw) s in
      if rest = [] then None
      else Some (length pre, length pre + length (takeWhile (\<lambda>c. \<not> is_word uw c) rest)))"

definition is_valid_name :: "(char \<Rightarrow> bool) \<Rightarrow> string \<Rightarrow> bool" where
  "is_valid_name uw name_str =
     (\<not> startswith name_str ''_'' \<and> search_nonword uw name_str = None)"

section \<open>Declared and persisted objects\<close>

text \<open>
  The six classes that \<open>parse_repo\<close> tests with \<open>isinstance\<close>. A value carries the
  list of these classes it is an instance of (empty for any other value), its
  \<open>name\<close>, its \<open>batch_source\<close> and the rest of its attributes as an opaque
  \<open>payload\<close>. Two values are the same element of a set when they are equal.
\<close>

datatype cls = FeatureTable | FeatureView | Entity | FeatureService
  | OnDemandFeatureView | RequestFeatureView

record pyobj =
  name :: string
  isa :: "cls list"
  batch_source :: string
  payload :: nat

definition isinstance :: "pyobj \<Rightarrow> cls \<Rightarrow> bool" where
  "isinstance obj c = (c \<in> set (isa obj))"

record ParsedRepo =
  feature_tables :: "pyobj pyset"
  feature_views :: "pyobj pyset"
  on_demand_feature_views :: "pyobj pyset"
  request_feature_views :: "pyobj pyset"
  entities :: "pyobj pyset"
  feature_services :: "pyobj pyset"

text \<open>
  The registry collaborator: one listing per kind, each scoped to a project.
\<close>

record registry =
  list_entities :: "string \<Rightarrow> pyobj list"
  list_feature_views :: "string \<Rightarrow> pyobj list"
  list_on_demand_feature_views :: "string \<Rightarrow> pyobj list"
  list_feature_tables :: "string \<Rightarrow> pyobj list"
  list_feature_services :: "string \<Rightarrow> pyobj list"

section \<open>The reconciler\<close>

text \<open>
  \<open>DUMMY_ENTITY_NAME\<close> is imported from \<open>feast.feature_view\<close>; it is the
  parameter \<open>dummy\<close>.
\<close>

definition tag_registry_entities_for_keep_delete ::
  "string \<Rightarrow> string \<Rightarrow> registry \<Rightarrow> ParsedRepo \<Rightarrow> pyobj pyset \<times> pyobj pyset" where
  "tag_registry_entities_for_keep_delete dummy project reg repo =
     (let entities_to_keep = entities repo;
          repo_entities_names = set_of_list (map name (entities repo));
          entities_to_delete =
            foldl (\<lambda>del registry_entity.
                     if name registry_entity \<notin> set repo_entities_names
                        \<and> name registry_entity \<noteq> dummy
                     then set_add del registry_entity else del)
                  [] (list_entities reg project)
      in (entities_to_keep, entities_to_delete))"

text \<open>
  In \<open>_tag_registry_views_for_keep_delete\<close>, \<open>cast\<close> returns its argument:
  \<open>views_to_keep\<close> is the set object \<open>repo.feature_views\<close> itself, and every
  \<open>views_to_keep.add\<close> changes the set held by the repo. The function therefore
  also returns the repo as it is after the call; \<open>repo.feature_views\<close> is read
  again, after the additions, to build the name set.
\<close>

definition tag_registry_views_for_keep_delete ::
  "string \<Rightarrow> registry \<Rightarrow> ParsedRepo \<Rightarrow> (pyobj pyset \<times> pyobj pyset) \<times> ParsedRepo" where
  "tag_registry_views_for_keep_delete project reg repo =
     (let repo1 = foldl (\<lambda>r request_fv. r\<lparr>feature_views := set_add (feature_views r) request_fv\<rparr>)
                        repo (request_feature_views repo);
          views_to_keep = feature_views repo1;
          repo_feature_view_names = set_of_list (map name (feature_views repo1));
          views_to_delete =
            foldl (\<lambda>del registry_view.
                     if name registry_view \<notin> set repo_feature_view_names
                     then set_add del registry_view else del)
                  [] (list_feature_views reg project)
      in ((views_to_keep, views_to_delete), repo1))"

definition tag_registry_on_demand_feature_views_for_keep_delete ::
  "string \<Rightarrow> registry \<Rightarrow> ParsedRepo \<Rightarrow> pyobj pyset \<times> pyobj pyset" where
  "tag_registry_on_demand_feature_views_for_keep_delete project reg repo =
     (let odfvs_to_keep = on_demand_feature_views repo;
          repo_on_demand_feature_view_names =
            set_of_list (map name (on_demand_feature_views repo));
          odfvs_to_delete =
            foldl (\<lambda>del registry_odfv.
                     if name registry_odfv \<notin> set repo_on_demand_feature_view_names
                     then set_add del registry_odfv else del)
                  [] (list_on_demand_feature_views reg project)
      in (odfvs_to_keep, odfvs_to_delete))"

definition tag_registry_tables_for_keep_delete ::
  "string \<Rightarrow> registry \<Rightarrow> ParsedRepo \<Rightarrow> pyobj pyset \<times> pyobj pyset" where
  "tag_registry_tables_for_keep_delete project reg repo =
     (let tables_to_keep = feature_tables repo;
          repo_table_names = set_of_list (map name (feature_tables repo));
          tables_to_delete =
            foldl (\<lambda>del registry_table.
                     if name registry_table \<notin> set repo_table_names
                     then set_add del registry_table else del)
                  [] (list_feature_tables reg project)
      in (tables_to_keep, tables_to_delete))"

definition tag_registry_services_for_keep_delete ::
  "string \<Rightarrow> registry \<Rightarrow> ParsedRepo \<Rightarrow> pyobj pyset \<times> pyobj pyset" where
  "tag_registry_services_for_keep_delete project reg repo =
     (let services_to_keep = feature_services repo;
          repo_feature_service_names = set_of_list (map name (feature_services repo));
          services_to_delete =
            foldl (\<lambda>del registry_service.
                     if name registry_service \<notin> set repo_feature_service_names
                     then set_add del registry_service else del)
                  [] (list_feature_services reg project)
      in (services_to_keep, services_to_delete))"

text \<open>
  The five computations as \<open>apply_total\<close> runs them, in its order: entities,
  views, on-demand views, tables, services. The repo that the view computation
  leaves behind is the one the later computations read.
\<close>

record plan =
  entities_to_keep :: "pyobj pyset"
  entities_to_delete :: "pyobj pyset"
  views_to_keep :: "pyobj pyset"
  views_to_delete :: "pyobj pyset"
  odfvs_to_keep :: "pyobj pyset"
  odfvs_to_delete :: "pyobj pyset"
  tables_to_keep :: "pyobj pyset"
  tables_to_delete :: "pyobj pyset"
  services_to_keep :: "pyobj pyset"
  services_to_delete :: "pyobj pyset"

definition tag_registry_for_keep_delete ::
  "string \<Rightarrow> string \<Rightarrow> registry \<Rightarrow> ParsedRepo \<Rightarrow> plan \<times> ParsedRepo" where
  "tag_registry_for_keep_delete dummy project reg repo =
     (let (ek, ed) = tag_registry_entities_for_keep_delete dummy project reg repo;
          ((vk, vd), repo1) = tag_registry_views_for_keep_delete project reg repo;
          (ok, od) = tag_registry_on_demand_feature_views_for_keep_delete project reg repo1;
          (tk, td) = tag_registry_tables_for_keep_delete project reg repo1;
          (sk, sd) = tag_registry_services_for_keep_delete project reg repo1
      in (\<lparr>entities_to_keep = ek, entities_to_delete = ed,
           views_to_keep = vk, views_to_delete = vd,
           odfvs_to_keep = ok, odfvs_to_delete = od,
           tables_to_keep = tk, tables_to_delete = td,
           services_to_keep = sk, services_to_delete = sd\<rparr>, repo1))"

section \<open>The ignore filter and the repo scanner\<close>

text \<open>
  A \<open>Path\<close> is the list of its parts; paths are ordered as \<open>pathlib\<close> orders
  them, part by part. The file system is reached through \<open>pathlib\<close> only:
  \<open>is_file\<close>, \<open>read_text\<close>, \<open>glob\<close> and \<open>resolve\<close> are the parameters of the
  model, gathered in a record.
\<close>

type_synonym path = "string list"

record filesystem =
  is_file :: "path \<Rightarrow> bool"
  read_text :: "path \<Rightarrow> string"
  glob :: "path \<Rightarrow> string \<Rightarrow> path list"
  resolve :: "path \<Rightarrow> path"

definition read_feastignore :: "filesystem \<Rightarrow> path \<Rightarrow> string list" where
  "read_feastignore fs repo_root =
     (let feast_ignore = repo_root @ [''.feastignore''] in
      if \<not> is_file fs feast_ignore then []
      else
        let lines = split_chr (CHR 0x0A) (strip (read_text fs feast_ignore)) in
        foldl (\<lambda>ignore_paths line.
                 let line1 = (if find_chr line (CHR ''#'') \<ge> 0
                              then take (nat (find_chr line (CHR ''#''))) line else line);
                     line2 = strip line1
                 in if length line2 > 0 then ignore_paths @ [line2] else ignore_paths)
              [] lines)"

definition get_ignore_files :: "filesystem \<Rightarrow> path \<Rightarrow> string list \<Rightarrow> path pyset" where
  "get_ignore_files fs repo_root ignore_paths =
     foldl (\<lambda>ignore_files ignore_path.
              foldl (\<lambda>ignore_files matched_path.
                       if is_file fs matched_path
                       then set_add ignore_files (resolve fs matched_path)
                       else set_update ignore_files
                              (set_of_list (map (resolve fs)
                                 (filter (is_file fs) (glob fs matched_path ''**/*.py'')))))
                    ignore_files (glob fs repo_root ignore_path))
           [] ignore_paths"

definition get_repo_files :: "filesystem \<Rightarrow> path \<Rightarrow> path list" where
  "get_repo_files fs repo_root =
     (let ignore_paths = read_feastignore fs repo_root;
          ignore_files = get_ignore_files fs repo_root ignore_paths;
          repo_files = set_of_list (map (resolve fs)
                         (filter (is_file fs) (glob fs repo_root ''**/*.py'')));
          repo_files = set_difference_update repo_files ignore_files
      in sort repo_files)"

section \<open>The object discoverer\<close>

datatype error = ValueError | ImportFailure string | ValidationFailure string | ApplyFailure

text \<open>
  An absolute path has the root \<open>/\<close> as its first part.
  \<open>path.relative_to(repo_root)\<close> raises \<open>ValueError\<close> unless the parts of the root
  begin the path; against a root without parts (\<open>Path('.')\<close>) it raises for an
  absolute path and returns a relative path as it is. \<open>str\<close> of a relative path
  joins its parts with \<open>/\<close>.
\<close>

definition is_absolute :: "path \<Rightarrow> bool" where
  "is_absolute p = (case p of [] \<Rightarrow> False | part # _ \<Rightarrow> part = ''/'')"

definition relative_to :: "path \<Rightarrow> path \<Rightarrow> error + path" where
  "relative_to p root =
     (if (if length root = 0 then is_absolute p else take (length root) p \<noteq> root)
      then Inl ValueError
      else Inr (drop (length root) p))"

fun str_of_path :: "path \<Rightarrow> string" where
  "str_of_path [] = ''.''"
| "str_of_path [p] = p"
| "str_of_path (p # q # ps) = p @ ''/'' @ str_of_path (q # ps)"

definition py_path_to_module :: "path \<Rightarrow> path \<Rightarrow> error + string" where
  "py_path_to_module p repo_root =
     (case relative_to p repo_root of
        Inl e \<Rightarrow> Inl e
      | Inr rel \<Rightarrow>
          let s = str_of_path rel in
          Inr (replace (replace (take (length s - length ''.py'') s) ''./'' []) ''/'' ''.''))"

text \<open>
  The body of the inner loop of \<open>parse_repo\<close>: one value of a module, tested
  against the six classes.
\<close>

definition classify :: "ParsedRepo \<Rightarrow> pyobj \<Rightarrow> ParsedRepo" where
  "classify res obj =
     (let res1 = (if isinstance obj FeatureTable
                  then res\<lparr>feature_tables := set_add (feature_tables res) obj\<rparr> else res)
      in if isinstance obj FeatureView
         then res1\<lparr>feature_views := set_add (feature_views res1) obj\<rparr>
         else if isinstance obj Entity
         then res1\<lparr>entities := set_add (entities res1) obj\<rparr>
         else if isinstance obj FeatureService
         then res1\<lparr>feature_services := set_add (feature_services res1) obj\<rparr>
         else if isinstance obj OnDemandFeatureView
         then res1\<lparr>on_demand_feature_views := set_add (on_demand_feature_views res1) obj\<rparr>
         else if isinstance obj RequestFeatureView
         then res1\<lparr>request_feature_views := set_add (request_feature_views res1) obj\<rparr>
         else res1)"

definition empty_repo :: ParsedRepo where
  "empty_repo = \<lparr>feature_tables = [], feature_views = [], on_demand_feature_views = [],
     request_feature_views = [], entities = [], feature_services = []\<rparr>"

text \<open>
  \<open>importlib.import_module\<close> is the parameter \<open>imp\<close>: it fails, or gives the values
  bound in the module, in the order of \<open>dir(module)\<close>.
\<close>

fun parse_files ::
  "(string \<Rightarrow> error + pyobj list) \<Rightarrow> path \<Rightarrow> path list \<Rightarrow> ParsedRepo \<Rightarrow> error + ParsedRepo" where
  "parse_files imp repo_root [] res = Inr res"
| "parse_files imp repo_root (repo_file # files) res =
     (case py_path_to_module repo_file repo_root of
        Inl e \<Rightarrow> Inl e
      | Inr module_path \<Rightarrow>
          (case imp module_path of
             Inl e \<Rightarrow> Inl e
           | Inr vals \<Rightarrow> parse_files imp repo_root files (foldl classify res vals)))"

definition parse_repo ::
  "filesystem \<Rightarrow> (string \<Rightarrow> error + pyobj list) \<Rightarrow> path \<Rightarrow> error + ParsedRepo" where
  "parse_repo fs imp repo_root = parse_files imp repo_root (get_repo_files fs repo_root) empty_repo"



section \<open>The apply coordinator\<close>

text \<open>
  \<open>FeatureStore(config=repo_config)\<close> is the parameter \<open>store\<close>: its project, its
  registry, whether \<open>validate\<close> returns on a data source, and whether \<open>apply\<close>
  returns. What \<open>apply_total\<close> does to the outside is recorded as a list of events,
  in the order of the calls.
\<close>

record feature_store =
  store_project :: string
  store_registry :: registry
  store_validates :: "string \<Rightarrow> bool"
  store_apply_returns :: "pyobj list \<Rightarrow> pyobj list \<Rightarrow> bool \<Rightarrow> bool"

datatype message =
    Deleted string string
  | Registered string string
  | Deploying string
  | Removing string

datatype event =
    Chdir path
  | Print string
  | InitializeRegistry
  | Validate string
  | ListEntities string
  | ListFeatureViews string
  | ListOnDemandFeatureViews string
  | ListFeatureTables string
  | ListFeatureServices string
  | StoreApply "pyobj list" "pyobj list" bool
  | Echo message

datatype outcome = Returned | Exit nat | Raised error

fun validate_sources :: "(string \<Rightarrow> bool) \<Rightarrow> string list \<Rightarrow> event list \<times> error option" where
  "validate_sources v [] = ([], None)"
| "validate_sources v (data_source # rest) =
     (if v data_source
      then (let (tr, r) = validate_sources v rest in (Validate data_source # tr, r))
      else ([Validate data_source], Some (ValidationFailure data_source)))"

definition report :: "ParsedRepo \<Rightarrow> plan \<Rightarrow> event list" where
  "report repo pl =
     map (\<lambda>entity. Echo (Deleted ''entity'' (name entity))) (entities_to_delete pl)
     @ map (\<lambda>view. Echo (Deleted ''feature view'' (name view))) (views_to_delete pl)
     @ map (\<lambda>odfv. Echo (Deleted ''on demand feature view'' (name odfv))) (odfvs_to_delete pl)
     @ map (\<lambda>table. Echo (Deleted ''feature table'' (name table))) (tables_to_delete pl)
     @ map (\<lambda>feature_service. Echo (Deleted ''feature service'' (name feature_service)))
         (services_to_delete pl)
     @ map (\<lambda>entity. Echo (Registered ''entity'' (name entity))) (entities_to_keep pl)
     @ map (\<lambda>view. Echo (Registered ''feature view'' (name view))) (views_to_keep pl)
     @ map (\<lambda>odfv. Echo (Registered ''on demand feature view'' (name odfv))) (odfvs_to_keep pl)
     @ map (\<lambda>feature_service. Echo (Registered ''feature service'' (name feature_service)))
         (services_to_keep pl)
     @ map (\<lambda>table. Echo (Registered ''feature table'' (name table))) (tables_to_keep pl)
     @ (let views_to_keep_in_infra =
              filter (\<lambda>view. isinstance view FeatureView) (views_to_keep pl)
        in map (\<lambda>n. Echo (Deploying n))
             (map name (feature_tables repo) @ map name views_to_keep_in_infra))
     @ (let views_to_delete_from_infra =
              filter (\<lambda>view. isinstance view FeatureView) (views_to_delete pl)
        in map (\<lambda>n. Echo (Removing n))
             (map name views_to_delete_from_infra @ map name (tables_to_delete pl)))"

definition invalid_project_message :: "string \<Rightarrow> string" where
  "invalid_project_message project =
     project @ '' is not valid. Project name should only have ''
       @ ''alphanumerical values and underscores but not start with an underscore.''"

definition apply_total ::
  "(char \<Rightarrow> bool) \<Rightarrow> string \<Rightarrow> filesystem \<Rightarrow> (string \<Rightarrow> error + pyobj list)
     \<Rightarrow> feature_store \<Rightarrow> path \<Rightarrow> bool \<Rightarrow> outcome \<times> event list" where
  "apply_total uw dummy fs imp store repo_path skip_source_validation =
     (let project = store_project store in
      if \<not> is_valid_name uw project
      then (Exit 1, [Chdir repo_path, Print (invalid_project_message project)])
      else
        let reg = store_registry store in
        case parse_repo fs imp repo_path of
          Inl e \<Rightarrow> (Raised e, [Chdir repo_path, InitializeRegistry])
        | Inr repo \<Rightarrow>
            let (validations, failure) =
                  (if \<not> skip_source_validation
                   then validate_sources (store_validates store)
                          (map batch_source (feature_views repo))
                   else ([], None))
            in case failure of
                 Some e \<Rightarrow> (Raised e, [Chdir repo_path, InitializeRegistry] @ validations)
               | None \<Rightarrow>
                   let (pl, repo1) = tag_registry_for_keep_delete dummy project reg repo;
                       all_to_apply = entities_to_keep pl @ views_to_keep pl
                          @ services_to_keep pl @ odfvs_to_keep pl @ tables_to_keep pl;
                       all_to_delete = entities_to_delete pl @ views_to_delete pl
                          @ services_to_delete pl @ odfvs_to_delete pl @ tables_to_delete pl;
                       calls = [Chdir repo_path, InitializeRegistry] @ validations
                          @ [ListEntities project, ListFeatureViews project,
                             ListOnDemandFeatureViews project, ListFeatureTables project,
                             ListFeatureServices project,
                             StoreApply all_to_apply all_to_delete False]
                   in if \<not> store_apply_returns store all_to_apply all_to_delete False
                      then (Raised ApplyFailure, calls)
                      else (Returned, calls @ report repo1 pl))"

text \<open>The calls that reach the registry collaborator.\<close>

fun registry_call :: "event \<Rightarrow> bool" where
  "registry_call InitializeRegistry = True"
| "registry_call (ListEntities p) = True"
| "registry_call (ListFeatureViews p) = True"
| "registry_call (ListOnDemandFeatureViews p) = True"
| "registry_call (ListFeatureTables p) = True"
| "registry_call (ListFeatureServices p) = True"
| "registry_call (StoreApply a d partial) = True"
| "registry_call e = False"

fun apply_call :: "event \<Rightarrow> bool" where
  "apply_call (StoreApply a d partial) = True"
| "apply_call e = False"

text \<open>
  What one match of an ignore pattern excludes: the file itself, resolved, or, for
  a match that is not a file, the resolved Python files below it.
\<close>

definition ignored_by_match :: "filesystem \<Rightarrow> path \<Rightarrow> path set" where
  "ignored_by_match fs m =
     (if is_file fs m then {resolve fs m}
      else resolve fs ` {s \<in> set (glob fs m ''**/*.py''). is_file fs s})"

text \<open>
  The reading of the ignore file in the words of the specification, to be compared
  with \<open>read_feastignore\<close>: every line of the text loses what follows the first
  \<open>#\<close> and its surrounding whitespace, and the lines that are then empty are
  skipped.
\<close>

definition strip_comment :: "string \<Rightarrow> string" where
  "strip_comment line = takeWhile (\<lambda>c. c \<noteq> CHR ''#'') line"

definition spec_ignore_patterns :: "string \<Rightarrow> string list" where
  "spec_ignore_patterns txt =
     filter (\<lambda>l. l \<noteq> [])
       (map (\<lambda>line. strip (strip_comment line)) (split_chr (CHR 0x0A) txt))"

section \<open>Concrete values for the scenarios\<close>

definition instance_of :: "cls \<Rightarrow> string \<Rightarrow> nat \<Rightarrow> pyobj" where
  "instance_of c n k = \<lparr>name = n, isa = [c], batch_source = n @ ''_source'', payload = k\<rparr>"

definition empty_registry :: registry where
  "empty_registry = \<lparr>list_entities = (\<lambda>p. []), list_feature_views = (\<lambda>p. []),
     list_on_demand_feature_views = (\<lambda>p. []), list_feature_tables = (\<lambda>p. []),
     list_feature_services = (\<lambda>p. [])\<rparr>"

definition registry_of ::
  "string \<Rightarrow> pyobj list \<Rightarrow> pyobj list \<Rightarrow> pyobj list \<Rightarrow> pyobj list \<Rightarrow> pyobj list \<Rightarrow> registry" where
  "registry_of project es vs os ts ss =
     \<lparr>list_entities = (\<lambda>p. if p = project then es else []),
      list_feature_views = (\<lambda>p. if p = project then vs else []),
      list_on_demand_feature_views = (\<lambda>p. if p = project then os else []),
      list_feature_tables = (\<lambda>p. if p = project then ts else []),
      list_feature_services = (\<lambda>p. if p = project then ss else [])\<rparr>"

text \<open>
  A repo at \<open>/repo\<close> with the files \<open>.feastignore\<close>, \<open>features.py\<close> and
  \<open>generated/foo.py\<close>; the ignore file holds a comment line and the pattern
  \<open>generated/**\<close> followed by a comment. \<open>glob\<close> answers as \<open>pathlib\<close> does on
  this tree.
\<close>

definition shop_root :: path where
  "shop_root = [''/'', ''repo'']"

definition shop_fs :: filesystem where
  "shop_fs =
     \<lparr>is_file = (\<lambda>p. p = shop_root @ [''.feastignore''] \<or> p = shop_root @ [''features.py'']
                      \<or> p = shop_root @ [''generated'', ''foo.py'']),
      read_text = (\<lambda>p. if p = shop_root @ [''.feastignore'']
                        then ''# generated code'' @ [CHR 0x0A]
                             @ ''generated/**   # protobuf output'' @ [CHR 0x0A]
                        else []),
      glob = (\<lambda>p pat.
                if p = shop_root \<and> pat = ''**/*.py''
                then [shop_root @ [''generated'', ''foo.py''], shop_root @ [''features.py'']]
                else if p = shop_root \<and> pat = ''generated/**''
                then [shop_root @ [''generated'']]
                else if p = shop_root @ [''generated''] \<and> pat = ''**/*.py''
                then [shop_root @ [''generated'', ''foo.py'']]
                else []),
      resolve = (\<lambda>p. p)\<rparr>"

text \<open>
  The module \<open>features\<close> binds one object of each kind and one value of no kind.
\<close>

definition shop_repo :: ParsedRepo where
  "shop_repo =
     \<lparr>feature_tables = [instance_of FeatureTable ''trips'' 0],
      feature_views = [instance_of FeatureView ''rides'' 0],
      on_demand_feature_views = [instance_of OnDemandFeatureView ''fare'' 0],
      request_feature_views = [instance_of RequestFeatureView ''req'' 0],
      entities = [instance_of Entity ''user'' 0],
      feature_services = [instance_of FeatureService ''svc'' 0]\<rparr>"

definition shop_imp :: "string \<Rightarrow> error + pyobj list" where
  "shop_imp module_path =
     (if module_path = ''features''
      then Inr [instance_of Entity ''user'' 0,
                instance_of FeatureView ''rides'' 0,
                instance_of OnDemandFeatureView ''fare'' 0,
                instance_of RequestFeatureView ''req'' 0,
                instance_of FeatureTable ''trips'' 0,
                instance_of FeatureService ''svc'' 0,
                \<lparr>name = [], isa = [], batch_source = [], payload = 7\<rparr>]
      else Inl (ImportFailure module_path))"

definition shop_registry :: registry where
  "shop_registry =
     registry_of ''shop''
       [instance_of Entity ''user'' 1, instance_of Entity ''driver'' 1,
        instance_of Entity ''__dummy'' 1]
       [instance_of FeatureView ''old_rides'' 1]
       []
       [instance_of FeatureTable ''old_trips'' 1]
       []"

definition shop_store :: "string \<Rightarrow> feature_store" where
  "shop_store project =
     \<lparr>store_project = project, store_registry = shop_registry,
      store_validates = (\<lambda>d. True), store_apply_returns = (\<lambda>a d partial. True)\<rparr>"

definition ascii_only :: "char \<Rightarrow> bool" where
  "ascii_only c = False"

text \<open>The registry once the keep-sets of a run over \<open>shop_repo\<close> are applied.\<close>

definition shop_registry_after :: registry where
  "shop_registry_after =
     registry_of ''shop''
       [instance_of Entity ''user'' 0]
       [instance_of FeatureView ''rides'' 0, instance_of RequestFeatureView ''req'' 0]
       [instance_of OnDemandFeatureView ''fare'' 0]
       [instance_of FeatureTable ''trips'' 0]
       [instance_of FeatureService ''svc'' 0]"

section \<open>Properties\<close>

lemma set_set_add: "set (set_add s x) = insert x (set s)"
  by (auto simp: set_add_def)

lemma set_foldl_set_add: "set (foldl set_add s xs) = set s \<union> set xs"
  by (induction xs arbitrary: s) (auto simp: set_set_add)

lemma set_set_of_list: "set (set_of_list xs) = set xs"
  by (simp add: set_of_list_def set_foldl_set_add)

lemma set_set_update: "set (set_update s t) = set s \<union> set t"
  by (simp add: set_update_def set_foldl_set_add)



lemma set_foldl_tag:
  "set (foldl (\<lambda>del x. if P x then set_add del x else del) acc xs)
     = set acc \<union> {x \<in> set xs. P x}"
  by (induction xs arbitrary: acc) (auto simp: set_set_add)

subsection \<open>The reconciler\<close>

lemma foldl_tag_none:
  "\<forall>x \<in> set xs. \<not> P x \<Longrightarrow> foldl (\<lambda>del x. if P x then set_add del x else del) acc xs = acc"
  by (induction xs arbitrary: acc) simp_all

lemma foldl_add_feature_views:
  "foldl (\<lambda>r x. r\<lparr>feature_views := set_add (feature_views r) x\<rparr>) repo xs
     = repo\<lparr>feature_views := foldl set_add (feature_views repo) xs\<rparr>"
  by (induction xs arbitrary: repo) simp_all

lemma views_keep:
  "fst (fst (tag_registry_views_for_keep_delete project reg repo))
     = foldl set_add (feature_views repo) (request_feature_views repo)"
  by (simp add: tag_registry_views_for_keep_delete_def Let_def foldl_add_feature_views)

lemma views_repo_after:
  "snd (tag_registry_views_for_keep_delete project reg repo)
     = repo\<lparr>feature_views := foldl set_add (feature_views repo) (request_feature_views repo)\<rparr>"
  by (simp add: tag_registry_views_for_keep_delete_def Let_def foldl_add_feature_views)

lemma views_delete:
  "set (snd (fst (tag_registry_views_for_keep_delete project reg repo)))
     = {v \<in> set (list_feature_views reg project).
          name v \<notin> name ` (set (feature_views repo) \<union> set (request_feature_views repo))}"
  by (simp add: tag_registry_views_for_keep_delete_def Let_def foldl_add_feature_views
        set_foldl_tag set_set_of_list set_foldl_set_add)

lemma views_delete_none:
  "set (list_feature_views reg project)
      \<subseteq> set (feature_views repo) \<union> set (request_feature_views repo)
   \<Longrightarrow> snd (fst (tag_registry_views_for_keep_delete project reg repo)) = []"
  by (auto simp: tag_registry_views_for_keep_delete_def Let_def foldl_add_feature_views
        set_set_of_list set_foldl_set_add intro!: foldl_tag_none)

lemma entities_delete_none:
  "set (list_entities reg project) \<subseteq> set (entities repo)
   \<Longrightarrow> snd (tag_registry_entities_for_keep_delete dummy project reg repo) = []"
  by (auto simp: tag_registry_entities_for_keep_delete_def Let_def set_set_of_list
        intro!: foldl_tag_none)

lemma odfvs_delete_none:
  "set (list_on_demand_feature_views reg project) \<subseteq> set (on_demand_feature_views repo)
   \<Longrightarrow> snd (tag_registry_on_demand_feature_views_for_keep_delete project reg repo) = []"
  by (auto simp: tag_registry_on_demand_feature_views_for_keep_delete_def Let_def set_set_of_list
        intro!: foldl_tag_none)

lemma tables_delete_none:
  "set (list_feature_tables reg project) \<subseteq> set (feature_tables repo)
   \<Longrightarrow> snd (tag_registry_tables_for_keep_delete project reg repo) = []"
  by (auto simp: tag_registry_tables_for_keep_delete_def Let_def set_set_of_list
        intro!: foldl_tag_none)

lemma services_delete_none:
  "set (list_feature_services reg project) \<subseteq> set (feature_services repo)
   \<Longrightarrow> snd (tag_registry_services_for_keep_delete project reg repo) = []"
  by (auto simp: tag_registry_services_for_keep_delete_def Let_def set_set_of_list
        intro!: foldl_tag_none)

text \<open>The later computations do not read \<open>repo.feature_views\<close>.\<close>

lemma odfvs_frame:
  "tag_registry_on_demand_feature_views_for_keep_delete project reg (repo\<lparr>feature_views := fv\<rparr>)
     = tag_registry_on_demand_feature_views_for_keep_delete project reg repo"
  by (simp add: tag_registry_on_demand_feature_views_for_keep_delete_def)

lemma tables_frame:
  "tag_registry_tables_for_keep_delete project reg (repo\<lparr>feature_views := fv\<rparr>)
     = tag_registry_tables_for_keep_delete project reg repo"
  by (simp add: tag_registry_tables_for_keep_delete_def)

lemma services_frame:
  "tag_registry_services_for_keep_delete project reg (repo\<lparr>feature_views := fv\<rparr>)
     = tag_registry_services_for_keep_delete project reg repo"
  by (simp add: tag_registry_services_for_keep_delete_def)

lemma plan_of_run:
  "fst (tag_registry_for_keep_delete dummy project reg repo) =
     \<lparr>entities_to_keep = fst (tag_registry_entities_for_keep_delete dummy project reg repo),
      entities_to_delete = snd (tag_registry_entities_for_keep_delete dummy project reg repo),
      views_to_keep = fst (fst (tag_registry_views_for_keep_delete project reg repo)),
      views_to_delete = snd (fst (tag_registry_views_for_keep_delete project reg repo)),
      odfvs_to_keep = fst (tag_registry_on_demand_feature_views_for_keep_delete project reg repo),
      odfvs_to_delete = snd (tag_registry_on_demand_feature_views_for_keep_delete project reg repo),
      tables_to_keep = fst (tag_registry_tables_for_keep_delete project reg repo),
      tables_to_delete = snd (tag_registry_tables_for_keep_delete project reg repo),
      services_to_keep = fst (tag_registry_services_for_keep_delete project reg repo),
      services_to_delete = snd (tag_registry_services_for_keep_delete project reg repo)\<rparr>"
  by (simp add: tag_registry_for_keep_delete_def split_beta Let_def views_repo_after
        odfvs_frame tables_frame services_frame)

lemma keep_fsts:
  "fst (tag_registry_entities_for_keep_delete dummy project reg repo) = entities repo"
  "fst (tag_registry_on_demand_feature_views_for_keep_delete project reg repo)
     = on_demand_feature_views repo"
  "fst (tag_registry_tables_for_keep_delete project reg repo) = feature_tables repo"
  "fst (tag_registry_services_for_keep_delete project reg repo) = feature_services repo"
  by (simp_all add: tag_registry_entities_for_keep_delete_def
        tag_registry_on_demand_feature_views_for_keep_delete_def
        tag_registry_tables_for_keep_delete_def tag_registry_services_for_keep_delete_def Let_def)

text \<open>
  C1: the entity computation keeps the declared entities as they are and deletes
  exactly the persisted entities whose name is neither declared nor the dummy name;
  no deleted entity bears the dummy name. With \<open>user\<close> declared and \<open>user\<close>,
  \<open>driver\<close> and the dummy entity persisted, \<open>user\<close> is kept and \<open>driver\<close> alone is
  deleted (the dummy name being another name than \<open>driver\<close>).
\<close>

theorem tag_entities_keep_delete:
  "fst (tag_registry_entities_for_keep_delete dummy project reg repo) = entities repo
   \<and> set (snd (tag_registry_entities_for_keep_delete dummy project reg repo))
       = {e \<in> set (list_entities reg project).
            name e \<notin> name ` set (entities repo) \<and> name e \<noteq> dummy}
   \<and> dummy \<notin> name ` set (snd (tag_registry_entities_for_keep_delete dummy project reg repo))
   \<and> (name u = ''user'' \<and> name u' = ''user'' \<and> name d = ''driver'' \<and> name m = dummy
        \<and> dummy \<noteq> ''driver'' \<and> entities repo = [u] \<and> list_entities reg project = [u', d, m]
      \<longrightarrow> tag_registry_entities_for_keep_delete dummy project reg repo = ([u], [d]))"
  by (auto simp: tag_registry_entities_for_keep_delete_def Let_def set_foldl_tag
        set_set_of_list set_add_def)

theorem tag_entities_keep_delete_witness:
  "tag_registry_entities_for_keep_delete ''__dummy'' ''shop'' shop_registry shop_repo
    = ([instance_of Entity ''user'' 0], [instance_of Entity ''driver'' 1])"
  using tag_entities_keep_delete [where dummy = "''__dummy''" and project = "''shop''"
      and reg = shop_registry and repo = shop_repo
      and u = "instance_of Entity ''user'' 0" and u' = "instance_of Entity ''user'' 1"
      and d = "instance_of Entity ''driver'' 1" and m = "instance_of Entity ''__dummy'' 1"]
  by (simp add: instance_of_def shop_repo_def shop_registry_def registry_of_def)

text \<open>
  C2: the view computation keeps the declared feature views together with the
  declared request feature views, but it deletes by the names of both: with a
  request feature view \<open>x\<close> declared, no feature view declared, and a feature view
  \<open>x\<close> persisted, nothing is deleted, whereas the persisted views without a declared
  feature view of their name are \<open>x\<close>.
\<close>

theorem views_delete_shared_name:
  "tag_registry_views_for_keep_delete ''shop''
      (registry_of ''shop'' [] [instance_of FeatureView ''x'' 1] [] [] [])
      (empty_repo\<lparr>request_feature_views := [instance_of RequestFeatureView ''x'' 0]\<rparr>)
    = (([instance_of RequestFeatureView ''x'' 0], []),
       empty_repo\<lparr>feature_views := [instance_of RequestFeatureView ''x'' 0],
                  request_feature_views := [instance_of RequestFeatureView ''x'' 0]\<rparr>)
   \<and> filter (\<lambda>v. name v \<notin> set (map name (feature_views
          (empty_repo\<lparr>request_feature_views := [instance_of RequestFeatureView ''x'' 0]\<rparr>))))
        (list_feature_views
          (registry_of ''shop'' [] [instance_of FeatureView ''x'' 1] [] [] []) ''shop'')
      = [instance_of FeatureView ''x'' 1]"
  by (simp add: tag_registry_views_for_keep_delete_def Let_def empty_repo_def
        registry_of_def instance_of_def set_add_def set_of_list_def)

text \<open>
  C3: the view computation changes the repo it is given: with one request feature
  view declared and no feature view, the set of feature views of the repo is empty
  before the call and holds the request feature view after it.
\<close>

theorem views_mutate_parsed_repo:
  "feature_views (empty_repo\<lparr>request_feature_views := [instance_of RequestFeatureView ''r'' 0]\<rparr>) = []
   \<and> feature_views (snd (tag_registry_views_for_keep_delete ''shop'' empty_registry
        (empty_repo\<lparr>request_feature_views := [instance_of RequestFeatureView ''r'' 0]\<rparr>)))
      = [instance_of RequestFeatureView ''r'' 0]"
  by (simp add: tag_registry_views_for_keep_delete_def Let_def empty_repo_def
        empty_registry_def instance_of_def set_add_def set_of_list_def)

text \<open>
  C4: when the registry lists, for each kind, what a first run kept, a second run
  over the same declared repo deletes nothing and keeps what the first run kept:
  the declared entities, on-demand views, tables and services, and the declared
  feature views together with the declared request feature views.
\<close>

theorem reconcile_idempotent:
  assumes "set (list_entities reg2 project)
             = set (entities_to_keep (fst (tag_registry_for_keep_delete dummy project reg repo)))"
    and "set (list_feature_views reg2 project)
             = set (views_to_keep (fst (tag_registry_for_keep_delete dummy project reg repo)))"
    and "set (list_on_demand_feature_views reg2 project)
             = set (odfvs_to_keep (fst (tag_registry_for_keep_delete dummy project reg repo)))"
    and "set (list_feature_tables reg2 project)
             = set (tables_to_keep (fst (tag_registry_for_keep_delete dummy project reg repo)))"
    and "set (list_feature_services reg2 project)
             = set (services_to_keep (fst (tag_registry_for_keep_delete dummy project reg repo)))"
  shows "entities_to_delete (fst (tag_registry_for_keep_delete dummy project reg2 repo)) = []
     \<and> views_to_delete (fst (tag_registry_for_keep_delete dummy project reg2 repo)) = []
     \<and> odfvs_to_delete (fst (tag_registry_for_keep_delete dummy project reg2 repo)) = []
     \<and> tables_to_delete (fst (tag_registry_for_keep_delete dummy project reg2 repo)) = []
     \<and> services_to_delete (fst (tag_registry_for_keep_delete dummy project reg2 repo)) = []
     \<and> entities_to_keep (fst (tag_registry_for_keep_delete dummy project reg2 repo))
         = entities_to_keep (fst (tag_registry_for_keep_delete dummy project reg repo))
     \<and> views_to_keep (fst (tag_registry_for_keep_delete dummy project reg2 repo))
         = views_to_keep (fst (tag_registry_for_keep_delete dummy project reg repo))
     \<and> odfvs_to_keep (fst (tag_registry_for_keep_delete dummy project reg2 repo))
         = odfvs_to_keep (fst (tag_registry_for_keep_delete dummy project reg repo))
     \<and> tables_to_keep (fst (tag_registry_for_keep_delete dummy project reg2 repo))
         = tables_to_keep (fst (tag_registry_for_keep_delete dummy project reg repo))
     \<and> services_to_keep (fst (tag_registry_for_keep_delete dummy project reg2 repo))
         = services_to_keep (fst (tag_registry_for_keep_delete dummy project reg repo))
     \<and> entities_to_keep (fst (tag_registry_for_keep_delete dummy project reg2 repo))
         = entities repo
     \<and> set (views_to_keep (fst (tag_registry_for_keep_delete dummy project reg2 repo)))
         = set (feature_views repo) \<union> set (request_feature_views repo)
     \<and> odfvs_to_keep (fst (tag_registry_for_keep_delete dummy project reg2 repo))
         = on_demand_feature_views repo
     \<and> tables_to_keep (fst (tag_registry_for_keep_delete dummy project reg2 repo))
         = feature_tables repo
     \<and> services_to_keep (fst (tag_registry_for_keep_delete dummy project reg2 repo))
         = feature_services repo"
proof -
  have e: "set (list_entities reg2 project) \<subseteq> set (entities repo)"
    using assms(1) by (simp add: plan_of_run keep_fsts)
  have v: "set (list_feature_views reg2 project)
             \<subseteq> set (feature_views repo) \<union> set (request_feature_views repo)"
    using assms(2) by (simp add: plan_of_run views_keep set_foldl_set_add)
  have od: "set (list_on_demand_feature_views reg2 project) \<subseteq> set (on_demand_feature_views repo)"
    using assms(3) by (simp add: plan_of_run keep_fsts)
  have t: "set (list_feature_tables reg2 project) \<subseteq> set (feature_tables repo)"
    using assms(4) by (simp add: plan_of_run keep_fsts)
  have s: "set (list_feature_services reg2 project) \<subseteq> set (feature_services repo)"
    using assms(5) by (simp add: plan_of_run keep_fsts)
  show ?thesis
    by (simp add: plan_of_run keep_fsts views_keep set_foldl_set_add
          entities_delete_none [OF e] views_delete_none [OF v] odfvs_delete_none [OF od]
          tables_delete_none [OF t] services_delete_none [OF s])
qed

theorem reconcile_idempotent_witness:
  "entities_to_delete (fst (tag_registry_for_keep_delete ''__dummy'' ''shop''
       shop_registry_after shop_repo)) = []
   \<and> views_to_delete (fst (tag_registry_for_keep_delete ''__dummy'' ''shop''
       shop_registry_after shop_repo)) = []
   \<and> set (views_to_keep (fst (tag_registry_for_keep_delete ''__dummy'' ''shop''
       shop_registry_after shop_repo)))
      = {instance_of FeatureView ''rides'' 0, instance_of RequestFeatureView ''req'' 0}"
proof -
  have a1: "set (list_entities shop_registry_after ''shop'')
      = set (entities_to_keep (fst (tag_registry_for_keep_delete ''__dummy'' ''shop''
               shop_registry shop_repo)))"
    by (simp add: plan_of_run keep_fsts shop_registry_after_def registry_of_def shop_repo_def)
  have a2: "set (list_feature_views shop_registry_after ''shop'')
      = set (views_to_keep (fst (tag_registry_for_keep_delete ''__dummy'' ''shop''
               shop_registry shop_repo)))"
    by (simp add: plan_of_run views_keep set_set_add shop_registry_after_def
          registry_of_def shop_repo_def insert_commute)
  have a3: "set (list_on_demand_feature_views shop_registry_after ''shop'')
      = set (odfvs_to_keep (fst (tag_registry_for_keep_delete ''__dummy'' ''shop''
               shop_registry shop_repo)))"
    by (simp add: plan_of_run keep_fsts shop_registry_after_def registry_of_def shop_repo_def)
  have a4: "set (list_feature_tables shop_registry_after ''shop'')
      = set (tables_to_keep (fst (tag_registry_for_keep_delete ''__dummy'' ''shop''
               shop_registry shop_repo)))"
    by (simp add: plan_of_run keep_fsts shop_registry_after_def registry_of_def shop_repo_def)
  have a5: "set (list_feature_services shop_registry_after ''shop'')
      = set (services_to_keep (fst (tag_registry_for_keep_delete ''__dummy'' ''shop''
               shop_registry shop_repo)))"
    by (simp add: plan_of_run keep_fsts shop_registry_after_def registry_of_def shop_repo_def)
  have fv: "set (feature_views shop_repo) \<union> set (request_feature_views shop_repo)
      = {instance_of FeatureView ''rides'' 0, instance_of RequestFeatureView ''req'' 0}"
    by (auto simp: shop_repo_def)
  note run2 = reconcile_idempotent [OF a1 a2 a3 a4 a5]
  from run2 have d1: "entities_to_delete (fst (tag_registry_for_keep_delete ''__dummy'' ''shop''
       shop_registry_after shop_repo)) = []"
    by blast
  from run2 have d2: "views_to_delete (fst (tag_registry_for_keep_delete ''__dummy'' ''shop''
       shop_registry_after shop_repo)) = []"
    by blast
  from run2 have k: "set (views_to_keep (fst (tag_registry_for_keep_delete ''__dummy'' ''shop''
       shop_registry_after shop_repo)))
      = set (feature_views shop_repo) \<union> set (request_feature_views shop_repo)"
    by blast
  show ?thesis
    by (intro conjI d1 d2 k [unfolded fv])
qed

subsection \<open>The ignore filter and the repo scanner\<close>

lemma set_ignore_inner:
  "set (foldl (\<lambda>ignore_files matched_path.
                 if is_file fs matched_path
                 then set_add ignore_files (resolve fs matched_path)
                 else set_update ignore_files
                        (set_of_list (map (resolve fs)
                           (filter (is_file fs) (glob fs matched_path ''**/*.py'')))))
              acc ms)
     = set acc \<union> (\<Union>m \<in> set ms. ignored_by_match fs m)"
  by (induction ms arbitrary: acc)
     (auto simp: set_set_add set_set_update set_set_of_list ignored_by_match_def)

lemma set_ignore_outer:
  "set (foldl (\<lambda>ignore_files ignore_path.
              foldl (\<lambda>ignore_files matched_path.
                       if is_file fs matched_path
                       then set_add ignore_files (resolve fs matched_path)
                       else set_update ignore_files
                              (set_of_list (map (resolve fs)
                                 (filter (is_file fs) (glob fs matched_path ''**/*.py'')))))
                    ignore_files (glob fs repo_root ignore_path))
           acc pats)
     = set acc \<union> (\<Union>pat \<in> set pats. \<Union>m \<in> set (glob fs repo_root pat). ignored_by_match fs m)"
  by (induction pats arbitrary: acc) (simp_all add: set_ignore_inner Un_assoc)

lemma set_get_ignore_files:
  "set (get_ignore_files fs repo_root pats)
     = (\<Union>pat \<in> set pats. \<Union>m \<in> set (glob fs repo_root pat). ignored_by_match fs m)"
  by (simp add: get_ignore_files_def set_ignore_outer)







lemma cut_comment:
  "(if find_chr line (CHR ''#'') \<ge> 0 then take (nat (find_chr line (CHR ''#''))) line else line)
     = strip_comment line"
proof (cases "CHR ''#'' \<in> set line")
  case True
  then show ?thesis
    by (simp add: find_chr_def strip_comment_def takeWhile_eq_take [symmetric])
next
  case False
  then have "\<forall>x \<in> set line. x \<noteq> CHR ''#''"
    by blast
  then have tw: "takeWhile (\<lambda>c. c \<noteq> CHR ''#'') line = line"
    by (rule iffD2 [OF takeWhile_eq_all_conv])
  from False have "find_chr line (CHR ''#'') = - 1"
    by (simp add: find_chr_def)
  then show ?thesis
    by (simp add: strip_comment_def tw)
qed

lemma feastignore_body:
  "(\<lambda>ignore_paths line.
            let line1 = (if find_chr line (CHR ''#'') \<ge> 0
                         then take (nat (find_chr line (CHR ''#''))) line else line);
                line2 = strip line1
            in if length line2 > 0 then ignore_paths @ [line2] else ignore_paths)
     = (\<lambda>ignore_paths line.
            if strip (strip_comment line) \<noteq> []
            then ignore_paths @ [strip (strip_comment line)] else ignore_paths)"
  by (intro ext) (simp add: Let_def cut_comment)

lemma feastignore_loop:
  "foldl (\<lambda>ignore_paths line.
            if strip (strip_comment line) \<noteq> []
            then ignore_paths @ [strip (strip_comment line)] else ignore_paths)
         acc lines
     = acc @ filter (\<lambda>l. l \<noteq> []) (map (\<lambda>line. strip (strip_comment line)) lines)"
  by (induction lines arbitrary: acc) simp_all

lemma hash_not_space: "isspace c \<Longrightarrow> c \<noteq> CHR ''#''"
  by (auto simp: isspace_def)

lemma strip_Cons_space: "isspace c \<Longrightarrow> strip (c # x) = strip x"
  by (simp add: strip_def)

lemma strip_snoc_space: "isspace c \<Longrightarrow> strip (x @ [c]) = strip x"
proof (cases "\<forall>y \<in> set x. isspace y")
  case True
  assume "isspace c"
  with True have a: "\<forall>y \<in> set (x @ [c]). isspace y"
    by simp
  have "dropWhile isspace (x @ [c]) = []"
    by (rule iffD2 [OF dropWhile_eq_Nil_conv a])
  moreover have "dropWhile isspace x = []"
    by (rule iffD2 [OF dropWhile_eq_Nil_conv True])
  ultimately show ?thesis by (simp only: strip_def rev.simps dropWhile.simps)
next
  case False
  assume c: "isspace c"
  from False obtain y where "y \<in> set x" "\<not> isspace y" by blast
  then have "dropWhile isspace (x @ [c]) = dropWhile isspace x @ [c]"
    by (rule dropWhile_append1)
  with c show ?thesis by (simp add: strip_def)
qed

lemma line_Cons_space:
  "isspace c \<Longrightarrow> strip (strip_comment (c # l)) = strip (strip_comment l)"
  by (simp add: strip_comment_def hash_not_space strip_Cons_space)

lemma line_snoc_space:
  "isspace c \<Longrightarrow> strip (strip_comment (l @ [c])) = strip (strip_comment l)"
proof (cases "\<forall>x \<in> set l. x \<noteq> CHR ''#''")
  case True
  assume c: "isspace c"
  have t1: "takeWhile (\<lambda>c. c \<noteq> CHR ''#'') l = l"
    by (rule iffD2 [OF takeWhile_eq_all_conv True])
  from True have "\<forall>x \<in> set (l @ [c]). x \<noteq> CHR ''#''"
    using hash_not_space [OF c] by simp
  then have t2: "takeWhile (\<lambda>c. c \<noteq> CHR ''#'') (l @ [c]) = l @ [c]"
    by (rule iffD2 [OF takeWhile_eq_all_conv])
  have "strip (strip_comment (l @ [c])) = strip (l @ [c])"
    by (simp only: strip_comment_def t2)
  also have "\<dots> = strip l"
    by (rule strip_snoc_space [OF c])
  also have "\<dots> = strip (strip_comment l)"
    by (simp only: strip_comment_def t1)
  finally show ?thesis .
next
  case False
  then obtain x where "x \<in> set l" "\<not> x \<noteq> CHR ''#''" by blast
  then have "takeWhile (\<lambda>c. c \<noteq> CHR ''#'') (l @ [c]) = takeWhile (\<lambda>c. c \<noteq> CHR ''#'') l"
    by (rule takeWhile_append1)
  then show ?thesis by (simp add: strip_comment_def)
qed

lemma split_chr_nonempty: "split_chr sep s \<noteq> []"
  by (induction s) (auto split: list.splits)

lemma split_chr_Cons:
  "c \<noteq> sep \<Longrightarrow> split_chr sep (c # cs) = (c # hd (split_chr sep cs)) # tl (split_chr sep cs)"
  using split_chr_nonempty [of sep cs] by (cases "split_chr sep cs") simp_all

lemma split_chr_snoc:
  "split_chr sep (cs @ [c]) =
     (if c = sep then split_chr sep cs @ [[]]
      else butlast (split_chr sep cs) @ [last (split_chr sep cs) @ [c]])"
proof (induction cs)
  case Nil
  then show ?case by simp
next
  case (Cons a cs)
  show ?case
  proof (cases "a = sep")
    case True
    with Cons show ?thesis
      using split_chr_nonempty [of sep cs] by simp
  next
    case False
    obtain l ls where s: "split_chr sep cs = l # ls"
      using split_chr_nonempty [of sep cs] by (cases "split_chr sep cs") auto
    show ?thesis
    proof (cases "c = sep")
      case True
      with False Cons s show ?thesis by simp
    next
      case c: False
      show ?thesis
      proof (cases ls)
        case Nil
        with False Cons s c show ?thesis by simp
      next
        case (Cons k ks)
        with False Cons.IH s c show ?thesis by simp
      qed
    qed
  qed
qed

lemma patterns_dropWhile:
  "spec_ignore_patterns (dropWhile isspace t) = spec_ignore_patterns t"
proof (induction t)
  case Nil
  then show ?case by simp
next
  case (Cons c cs)
  show ?case
  proof (cases "isspace c")
    case False
    then show ?thesis by simp
  next
    case True
    show ?thesis
    proof (cases "c = CHR 0x0A")
      case nl: True
      have "strip (strip_comment []) = []"
        by (simp add: strip_def strip_comment_def)
      with nl have "spec_ignore_patterns (c # cs) = spec_ignore_patterns cs"
        by (simp add: spec_ignore_patterns_def)
      with True Cons show ?thesis by simp
    next
      case False
      then have "spec_ignore_patterns (c # cs) = spec_ignore_patterns cs"
        using split_chr_nonempty [of "CHR 0x0A" cs] True
        by (cases "split_chr (CHR 0x0A) cs")
           (simp_all add: spec_ignore_patterns_def line_Cons_space)
      with True Cons show ?thesis by simp
    qed
  qed
qed

lemma patterns_snoc_space:
  assumes "isspace c"
  shows "spec_ignore_patterns (cs @ [c]) = spec_ignore_patterns cs"
proof (cases "c = CHR 0x0A")
  case True
  have "strip (strip_comment []) = []"
    by (simp add: strip_def strip_comment_def)
  with True show ?thesis
    by (simp add: spec_ignore_patterns_def split_chr_snoc)
next
  case False
  have ne: "split_chr (CHR 0x0A) cs \<noteq> []" by (rule split_chr_nonempty)
  then have dec: "split_chr (CHR 0x0A) cs
        = butlast (split_chr (CHR 0x0A) cs) @ [last (split_chr (CHR 0x0A) cs)]"
    by simp
  have "spec_ignore_patterns (cs @ [c])
      = filter (\<lambda>l. l \<noteq> []) (map (\<lambda>line. strip (strip_comment line))
          (butlast (split_chr (CHR 0x0A) cs) @ [last (split_chr (CHR 0x0A) cs) @ [c]]))"
    using False by (simp add: spec_ignore_patterns_def split_chr_snoc)
  also have "\<dots> = filter (\<lambda>l. l \<noteq> []) (map (\<lambda>line. strip (strip_comment line))
          (butlast (split_chr (CHR 0x0A) cs) @ [last (split_chr (CHR 0x0A) cs)]))"
    by (simp add: line_snoc_space [OF assms])
  also have "\<dots> = spec_ignore_patterns cs"
    unfolding spec_ignore_patterns_def using dec by simp
  finally show ?thesis .
qed

lemma patterns_dropWhile_end:
  "spec_ignore_patterns (rev (dropWhile isspace (rev t))) = spec_ignore_patterns t"
proof (induction t rule: rev_induct)
  case Nil
  then show ?case by simp
next
  case (snoc c cs)
  show ?case
  proof (cases "isspace c")
    case True
    with snoc show ?thesis by (simp add: patterns_snoc_space)
  next
    case False
    then show ?thesis by simp
  qed
qed

lemma patterns_strip: "spec_ignore_patterns (strip t) = spec_ignore_patterns t"
  by (simp add: strip_def patterns_dropWhile_end patterns_dropWhile)

lemma read_feastignore_spec:
  "is_file fs (repo_root @ [''.feastignore''])
   \<Longrightarrow> read_feastignore fs repo_root
         = spec_ignore_patterns (read_text fs (repo_root @ [''.feastignore'']))"
proof -
  assume f: "is_file fs (repo_root @ [''.feastignore''])"
  then have "read_feastignore fs repo_root
      = spec_ignore_patterns (strip (read_text fs (repo_root @ [''.feastignore''])))"
    unfolding read_feastignore_def feastignore_body
    by (simp add: Let_def feastignore_loop spec_ignore_patterns_def)
  then show ?thesis by (simp add: patterns_strip)
qed

lemma get_ignore_files_no_match:
  "glob fs repo_root pat = []
   \<Longrightarrow> get_ignore_files fs repo_root (pats @ [pat]) = get_ignore_files fs repo_root pats"
  by (simp add: get_ignore_files_def)

text \<open>
  C9: without an ignore file there is no pattern. With one, the patterns are the
  lines of its text, each cut at its first \<open>#\<close> and stripped of whitespace, the
  empty ones left out. The ignored files are, over all patterns and all their
  matches below the root, the resolved match when it is a file and the resolved
  Python files below it otherwise. A pattern that matches nothing adds nothing,
  and nothing fails.
\<close>

theorem feastignore_patterns_and_matches:
  "(\<not> is_file fs (repo_root @ [''.feastignore'']) \<longrightarrow> read_feastignore fs repo_root = [])
   \<and> (is_file fs (repo_root @ [''.feastignore''])
        \<longrightarrow> read_feastignore fs repo_root
              = spec_ignore_patterns (read_text fs (repo_root @ [''.feastignore''])))
   \<and> set (get_ignore_files fs repo_root pats)
       = (\<Union>pat \<in> set pats. \<Union>m \<in> set (glob fs repo_root pat). ignored_by_match fs m)
   \<and> (glob fs repo_root pat = []
        \<longrightarrow> get_ignore_files fs repo_root (pats @ [pat]) = get_ignore_files fs repo_root pats)"
proof (intro conjI impI)
  assume "\<not> is_file fs (repo_root @ [''.feastignore''])"
  then show "read_feastignore fs repo_root = []"
    by (simp add: read_feastignore_def)
next
  assume "is_file fs (repo_root @ [''.feastignore''])"
  then show "read_feastignore fs repo_root
      = spec_ignore_patterns (read_text fs (repo_root @ [''.feastignore'']))"
    by (rule read_feastignore_spec)
next
  show "set (get_ignore_files fs repo_root pats)
       = (\<Union>pat \<in> set pats. \<Union>m \<in> set (glob fs repo_root pat). ignored_by_match fs m)"
    by (rule set_get_ignore_files)
next
  assume "glob fs repo_root pat = []"
  then show "get_ignore_files fs repo_root (pats @ [pat]) = get_ignore_files fs repo_root pats"
    by (rule get_ignore_files_no_match)
qed

theorem feastignore_patterns_and_matches_witness:
  "read_feastignore shop_fs shop_root = [''generated/**'']
   \<and> read_feastignore (shop_fs\<lparr>is_file := (\<lambda>p. False)\<rparr>) shop_root = []
   \<and> get_ignore_files shop_fs shop_root ([''generated/**''] @ [''build/*''])
       = get_ignore_files shop_fs shop_root [''generated/**'']
   \<and> set (get_ignore_files shop_fs shop_root [''generated/**''])
       = {shop_root @ [''generated'', ''foo.py'']}"
proof -
  note here = feastignore_patterns_and_matches [where fs = shop_fs and repo_root = shop_root
      and pats = "[''generated/**'']" and pat = "''build/*''"]
  note absent = feastignore_patterns_and_matches [where fs = "shop_fs\<lparr>is_file := (\<lambda>p. False)\<rparr>"
      and repo_root = shop_root and pats = "[]" and pat = "''build/*''"]
  have f: "is_file shop_fs (shop_root @ [''.feastignore''])"
    by (simp add: shop_fs_def)
  have nf: "\<not> is_file (shop_fs\<lparr>is_file := (\<lambda>p. False)\<rparr>) (shop_root @ [''.feastignore''])"
    by simp
  have g: "glob shop_fs shop_root ''build/*'' = []"
    by (simp add: shop_fs_def)
  from here f have "read_feastignore shop_fs shop_root
      = spec_ignore_patterns (read_text shop_fs (shop_root @ [''.feastignore'']))"
    by blast
  also have "\<dots> = [''generated/**'']"
    by code_simp
  finally have 1: "read_feastignore shop_fs shop_root = [''generated/**'']" .
  from absent nf have 2: "read_feastignore (shop_fs\<lparr>is_file := (\<lambda>p. False)\<rparr>) shop_root = []"
    by blast
  from here g have 3: "get_ignore_files shop_fs shop_root ([''generated/**''] @ [''build/*''])
       = get_ignore_files shop_fs shop_root [''generated/**'']"
    by blast
  from here have "set (get_ignore_files shop_fs shop_root [''generated/**''])
       = (\<Union>pat \<in> set [''generated/**'']. \<Union>m \<in> set (glob shop_fs shop_root pat).
            ignored_by_match shop_fs m)"
    by blast
  also have "\<dots> = {shop_root @ [''generated'', ''foo.py'']}"
    by (auto simp: shop_fs_def ignored_by_match_def)
  finally have 4: "set (get_ignore_files shop_fs shop_root [''generated/**''])
       = {shop_root @ [''generated'', ''foo.py'']}" .
  from 1 2 3 4 show ?thesis by (intro conjI)
qed

subsection \<open>The object discoverer\<close>





subsection \<open>The apply coordinator\<close>

lemma is_valid_name_iff:
  "is_valid_name uw s \<longleftrightarrow> (s = [] \<or> hd s \<noteq> CHR ''_'') \<and> (\<forall>c \<in> set s. is_word uw c)"
  by (cases s) (auto simp: is_valid_name_def startswith_def search_nonword_def Let_def
        dropWhile_eq_Nil_conv)

text \<open>
  C7: with a project name that the name check refuses, \<open>apply_total\<close> exits with
  status 1 and its calls hold no call to the registry, neither a listing nor the
  apply; the name \<open>_bad\<close> is refused.
\<close>

theorem apply_total_invalid_name:
  "(\<not> is_valid_name uw (store_project store) \<longrightarrow>
      fst (apply_total uw dummy fs imp store repo_path skip) = Exit 1
      \<and> filter registry_call (snd (apply_total uw dummy fs imp store repo_path skip)) = [])
   \<and> \<not> is_valid_name uw ''_bad''"
  by (simp add: apply_total_def Let_def is_valid_name_def startswith_def)

theorem apply_total_invalid_name_witness:
  "\<not> is_valid_name ascii_only ''_bad''
   \<and> fst (apply_total ascii_only ''__dummy'' shop_fs shop_imp (shop_store ''_bad'') shop_root False)
       = Exit 1
   \<and> filter registry_call
       (snd (apply_total ascii_only ''__dummy'' shop_fs shop_imp (shop_store ''_bad'') shop_root False))
       = []"
  using apply_total_invalid_name [where uw = ascii_only and store = "shop_store ''_bad''"
      and dummy = "''__dummy''" and fs = shop_fs and imp = shop_imp and repo_path = shop_root
      and skip = False]
  by (simp add: shop_store_def)

lemma validate_sources_all:
  "\<forall>d \<in> set ds. v d \<Longrightarrow> validate_sources v ds = (map Validate ds, None)"
  by (induction ds) simp_all

lemma report_no_apply: "filter apply_call (report repo pl) = []"
  by (simp add: report_def Let_def filter_map o_def)

text \<open>
  C8: when the project name is valid, discovery gives a repo and the data sources
  validate (or validation is skipped), the calls of \<open>apply_total\<close> hold exactly one
  apply call. Its first list is the keep-sets of the entities, views, services,
  on-demand views and tables, in this order; its second list is their delete-sets
  in the same order; it is not partial.
\<close>

theorem apply_total_single_apply:
  assumes "is_valid_name uw (store_project store)"
    and "parse_repo fs imp repo_path = Inr repo"
    and "skip \<or> (\<forall>d \<in> set (map batch_source (feature_views repo)). store_validates store d)"
  shows "filter apply_call (snd (apply_total uw dummy fs imp store repo_path skip))
     = [StoreApply
          (fst (tag_registry_entities_for_keep_delete dummy (store_project store)
                  (store_registry store) repo)
           @ fst (fst (tag_registry_views_for_keep_delete (store_project store)
                  (store_registry store) repo))
           @ fst (tag_registry_services_for_keep_delete (store_project store)
                  (store_registry store) repo)
           @ fst (tag_registry_on_demand_feature_views_for_keep_delete (store_project store)
                  (store_registry store) repo)
           @ fst (tag_registry_tables_for_keep_delete (store_project store)
                  (store_registry store) repo))
          (snd (tag_registry_entities_for_keep_delete dummy (store_project store)
                  (store_registry store) repo)
           @ snd (fst (tag_registry_views_for_keep_delete (store_project store)
                  (store_registry store) repo))
           @ snd (tag_registry_services_for_keep_delete (store_project store)
                  (store_registry store) repo)
           @ snd (tag_registry_on_demand_feature_views_for_keep_delete (store_project store)
                  (store_registry store) repo)
           @ snd (tag_registry_tables_for_keep_delete (store_project store)
                  (store_registry store) repo))
          False]"
proof -
  have val: "(if \<not> skip then validate_sources (store_validates store)
                 (map batch_source (feature_views repo)) else ([], None))
        = (if \<not> skip then map Validate (map batch_source (feature_views repo)) else [], None)"
    using assms(3) by (auto simp: validate_sources_all)
  have novalidate: "filter apply_call (map Validate xs) = []" for xs
    by (induction xs) simp_all
  show ?thesis
    using assms(1,2)
    by (simp add: apply_total_def Let_def val split_beta plan_of_run report_no_apply novalidate)
qed

theorem apply_total_single_apply_witness:
  "filter apply_call
     (snd (apply_total ascii_only ''__dummy'' shop_fs shop_imp (shop_store ''shop'') shop_root False))
   = [StoreApply
        [instance_of Entity ''user'' 0, instance_of FeatureView ''rides'' 0,
         instance_of RequestFeatureView ''req'' 0, instance_of FeatureService ''svc'' 0,
         instance_of OnDemandFeatureView ''fare'' 0, instance_of FeatureTable ''trips'' 0]
        [instance_of Entity ''driver'' 1, instance_of FeatureView ''old_rides'' 1,
         instance_of FeatureTable ''old_trips'' 1]
        False]"
proof -
  have h1: "is_valid_name ascii_only (store_project (shop_store ''shop''))"
    by code_simp
  have h2: "parse_repo shop_fs shop_imp shop_root = Inr shop_repo"
    by code_simp
  have h3: "False \<or> (\<forall>d \<in> set (map batch_source (feature_views shop_repo)).
                store_validates (shop_store ''shop'') d)"
    by (simp add: shop_store_def)
  have "filter apply_call
     (snd (apply_total ascii_only ''__dummy'' shop_fs shop_imp (shop_store ''shop'') shop_root False))
     = [StoreApply
          (fst (tag_registry_entities_for_keep_delete ''__dummy'' (store_project (shop_store ''shop''))
                  (store_registry (shop_store ''shop'')) shop_repo)
           @ fst (fst (tag_registry_views_for_keep_delete (store_project (shop_store ''shop''))
                  (store_registry (shop_store ''shop'')) shop_repo))
           @ fst (tag_registry_services_for_keep_delete (store_project (shop_store ''shop''))
                  (store_registry (shop_store ''shop'')) shop_repo)
           @ fst (tag_registry_on_demand_feature_views_for_keep_delete
                  (store_project (shop_store ''shop'')) (store_registry (shop_store ''shop'')) shop_repo)
           @ fst (tag_registry_tables_for_keep_delete (store_project (shop_store ''shop''))
                  (store_registry (shop_store ''shop'')) shop_repo))
          (snd (tag_registry_entities_for_keep_delete ''__dummy'' (store_project (shop_store ''shop''))
                  (store_registry (shop_store ''shop'')) shop_repo)
           @ snd (fst (tag_registry_views_for_keep_delete (store_project (shop_store ''shop''))
                  (store_registry (shop_store ''shop'')) shop_repo))
           @ snd (tag_registry_services_for_keep_delete (store_project (shop_store ''shop''))
                  (store_registry (shop_store ''shop'')) shop_repo)
           @ snd (tag_registry_on_demand_feature_views_for_keep_delete
                  (store_project (shop_store ''shop'')) (store_registry (shop_store ''shop'')) shop_repo)
           @ snd (tag_registry_tables_for_keep_delete (store_project (shop_store ''shop''))
                  (store_registry (shop_store ''shop'')) shop_repo))
          False]"
    by (rule apply_total_single_apply [OF h1 h2 h3])
  also have "\<dots> = [StoreApply
        [instance_of Entity ''user'' 0, instance_of FeatureView ''rides'' 0,
         instance_of RequestFeatureView ''req'' 0, instance_of FeatureService ''svc'' 0,
         instance_of OnDemandFeatureView ''fare'' 0, instance_of FeatureTable ''trips'' 0]
        [instance_of Entity ''driver'' 1, instance_of FeatureView ''old_rides'' 1,
         instance_of FeatureTable ''old_trips'' 1]
        False]"
    by code_simp
  finally show ?thesis .
qed

text \<open>
  C10: the name check accepts the empty string.
\<close>

theorem is_valid_name_empty: "is_valid_name uw '''' = True"
  by (simp add: is_valid_name_def startswith_def search_nonword_def)

end
